theory Spec2Isabelle
  imports Complex_Main
begin

section \<open>JSON values and the JavaScript conversions the code relies on\<close>

text \<open>
  A value produced by \<^verbatim>\<open>JSON.parse\<close>. An object is the list that
  \<^verbatim>\<open>Object.entries\<close> returns for it: its own properties, in order. JavaScript
  numbers are modelled by the rational number they denote, so rounding of doubles is
  outside the model.
\<close>

datatype json =
    JNull
  | JBool bool
  | JNum rat
  | JStr string
  | JArr "json list"
  | JObj "(string \<times> json) list"

definition Number_isInteger :: "rat \<Rightarrow> bool" where
  "Number_isInteger x = (of_int \<lfloor>x\<rfloor> = x)"

definition digit_char :: "nat \<Rightarrow> char" where
  "digit_char d = ''0123456789'' ! d"

function dec_nat :: "nat \<Rightarrow> string" where
  "dec_nat n = (if n < 10 then [digit_char n] else dec_nat (n div 10) @ [digit_char (n mod 10)])"
  by pat_completeness auto
termination
  by (relation "measure id") auto

declare dec_nat.simps [simp del]

definition dec_int :: "int \<Rightarrow> string" where
  "dec_int i = (if i < 0 then CHR ''-'' # dec_nat (nat (- i)) else dec_nat (nat i))"

text \<open>
  A log line of pino, at its declared type \<^verbatim>\<open>LogEntry\<close>: the level and the
  time (milliseconds since the epoch) are integers, \<open>msg\<close> is a string or absent, and
  \<open>rest\<close> holds every other property of the line, in order.
\<close>

record LogEntry =
  level :: int
  time :: int
  msg :: "string option"
  rest :: "(string \<times> json) list"

text \<open>
  \<^verbatim>\<open>Object.entries(log)\<close>. Where the three typed properties stand among the
  others does not matter to the code, which drops them before it reads any value.
\<close>

definition Object_entries :: "LogEntry \<Rightarrow> (string \<times> json) list" where
  "Object_entries entry =
     (''level'', JNum (of_int (level entry))) # (''time'', JNum (of_int (time entry))) #
     rest entry @ (case msg entry of None \<Rightarrow> [] | Some m \<Rightarrow> [(''msg'', JStr m)])"

text \<open>
  What the runtime and the configuration supply:
  \<^item> \<open>serviceName\<close> is \<^verbatim>\<open>config.otel.serviceName\<close>;
  \<^item> \<open>JSON_parse\<close> is \<^verbatim>\<open>JSON.parse\<close> on a line written by pino, with \<open>None\<close>
    where it throws;
  \<^item> \<open>frac_toString\<close> is \<^verbatim>\<open>String\<close> on a number that is not an integer.
\<close>

record runtime =
  serviceName :: string
  JSON_parse :: "string \<Rightarrow> LogEntry option"
  frac_toString :: "rat \<Rightarrow> string"

text \<open>
  \<^verbatim>\<open>String(x)\<close> for a number: the decimal digits of an integer, as JavaScript prints
  every integer below \<open>10^21\<close> in magnitude.
\<close>

definition Number_toString :: "runtime \<Rightarrow> rat \<Rightarrow> string" where
  "Number_toString rt x = (if Number_isInteger x then dec_int \<lfloor>x\<rfloor> else frac_toString rt x)"

fun join :: "string \<Rightarrow> string list \<Rightarrow> string" where
  "join sep [] = []"
| "join sep [s] = s"
| "join sep (s # t # ss) = s @ sep @ join sep (t # ss)"

text \<open>
  \<^verbatim>\<open>String(value)\<close>: an array prints its elements separated by commas, with
  \<^verbatim>\<open>null\<close> elements printed as the empty string; an object prints as
  \<^verbatim>\<open>[object Object]\<close>.
\<close>

fun String :: "runtime \<Rightarrow> json \<Rightarrow> string" where
  "String rt JNull = ''null''"
| "String rt (JBool b) = (if b then ''true'' else ''false'')"
| "String rt (JNum x) = Number_toString rt x"
| "String rt (JStr s) = s"
| "String rt (JArr xs) =
     join '','' (map (\<lambda>v. if v = JNull then [] else String rt v) xs)"
| "String rt (JObj kvs) = ''[object Object]''"

section \<open>The OTLP wire shape (logger.ts)\<close>

fun levelToSeverity :: "int \<Rightarrow> nat \<times> string" where
  "levelToSeverity lvl =
     (if lvl \<le> 10 then (1, ''TRACE'')
      else if lvl \<le> 20 then (5, ''DEBUG'')
      else if lvl \<le> 30 then (9, ''INFO'')
      else if lvl \<le> 40 then (13, ''WARN'')
      else if lvl \<le> 50 then (17, ''ERROR'')
      else (21, ''FATAL''))"

record OtlpAttributeValue =
  stringValue :: "string option"
  intValue :: "string option"
  doubleValue :: "rat option"
  boolValue :: "bool option"

definition no_value :: OtlpAttributeValue where
  "no_value = \<lparr>stringValue = None, intValue = None, doubleValue = None, boolValue = None\<rparr>"

fun toOtlpValue :: "runtime \<Rightarrow> json \<Rightarrow> OtlpAttributeValue" where
  "toOtlpValue rt (JStr s) = no_value\<lparr>stringValue := Some s\<rparr>"
| "toOtlpValue rt (JNum x) =
     (if Number_isInteger x then no_value\<lparr>intValue := Some (String rt (JNum x))\<rparr>
      else no_value\<lparr>doubleValue := Some x\<rparr>)"
| "toOtlpValue rt (JBool b) = no_value\<lparr>boolValue := Some b\<rparr>"
| "toOtlpValue rt v = no_value\<lparr>stringValue := Some (String rt v)\<rparr>"

record KeyValue =
  key :: string
  attr_value :: OtlpAttributeValue

definition toOtlpAttributes :: "runtime \<Rightarrow> (string \<times> json) list \<Rightarrow> KeyValue list" where
  "toOtlpAttributes rt obj =
     map (\<lambda>(k, v). \<lparr>key = k, attr_value = toOtlpValue rt v\<rparr>)
       (filter (\<lambda>(k, v). k \<notin> set [''level'', ''time'', ''pid'', ''hostname'', ''msg'', ''name''])
          obj)"

record Resource =
  resource_attributes :: "KeyValue list"

record Scope =
  name :: string
  version :: string

record LogRecord =
  timeUnixNano :: string
  observedTimeUnixNano :: string
  severityNumber :: nat
  severityText :: string
  body :: OtlpAttributeValue
  attributes :: "KeyValue list"

record ScopeLogs =
  scope :: Scope
  logRecords :: "LogRecord list"

record ResourceLogs =
  resource :: Resource
  scopeLogs :: "ScopeLogs list"

record ExportLogsServiceRequest =
  resourceLogs :: "ResourceLogs list"

definition FLUSH_INTERVAL :: nat where
  "FLUSH_INTERVAL = 5000"

definition MAX_BATCH_SIZE :: nat where
  "MAX_BATCH_SIZE = 50"

text \<open>
  One record of the payload. \<^verbatim>\<open>log.msg || ""\<close> takes the message unless it is
  absent or empty. \<open>now\<close> is \<^verbatim>\<open>Date.now() * 1_000_000\<close>.
\<close>

definition logRecord :: "runtime \<Rightarrow> int \<Rightarrow> LogEntry \<Rightarrow> LogRecord" where
  "logRecord rt now entry =
     (let (sevNumber, sevText) = levelToSeverity (level entry)
      in \<lparr>timeUnixNano = String rt (JNum (of_int (time entry * 1000000))),
          observedTimeUnixNano = String rt (JNum (of_int now)),
          severityNumber = sevNumber,
          severityText = sevText,
          body = no_value\<lparr>stringValue :=
                   Some (case msg entry of None \<Rightarrow> [] | Some m \<Rightarrow> if m = [] then [] else m)\<rparr>,
          attributes = toOtlpAttributes rt (Object_entries entry)\<rparr>)"

definition formatOtlpPayload :: "runtime \<Rightarrow> nat \<Rightarrow> LogEntry list \<Rightarrow> ExportLogsServiceRequest" where
  "formatOtlpPayload rt date_now logs =
     (let now = int date_now * 1000000
      in \<lparr>resourceLogs =
            [\<lparr>resource = \<lparr>resource_attributes =
                 [\<lparr>key = ''service.name'', attr_value = no_value\<lparr>stringValue := Some (serviceName rt)\<rparr>\<rparr>,
                  \<lparr>key = ''service.version'', attr_value = no_value\<lparr>stringValue := Some ''0.1.0''\<rparr>\<rparr>]\<rparr>,
              scopeLogs =
                 [\<lparr>scope = \<lparr>name = ''pino'', version = ''9.6.0''\<rparr>,
                   logRecords = map (logRecord rt now) logs\<rparr>]\<rparr>]\<rparr>)"

section \<open>The log buffer and its flush timer (logger.ts)\<close>

text \<open>
  The two module variables \<open>logBuffer\<close> and \<open>flushTimer\<close>, together with what the
  runtime holds for them:
  \<^item> \<open>date_now\<close> is the clock read by \<^verbatim>\<open>Date.now()\<close>, in milliseconds;
  \<^item> \<open>timeouts\<close> are the callbacks registered with \<^verbatim>\<open>setTimeout\<close> and neither fired
    nor cleared yet, each with its handle and the time it is due;
  \<^item> \<open>next_timeout\<close> is the handle the next \<^verbatim>\<open>setTimeout\<close> returns;
  \<^item> \<open>in_flight\<close> are the calls of \<open>flushLogs\<close> suspended at
    \<^verbatim>\<open>await fetch(...)\<close>, each with the number of its request and its local \<open>logs\<close>;
  \<^item> \<open>requests\<close> are the bodies posted to the ingest endpoint so far, oldest first;
  \<^item> \<open>acknowledged\<close> are the entries of the requests the endpoint has answered with
    an OK response, in the order of the answers.
\<close>

record logger_state =
  logBuffer :: "LogEntry list"
  flushTimer :: "nat option"
  date_now :: nat
  timeouts :: "(nat \<times> nat) list"
  next_timeout :: nat
  in_flight :: "(nat \<times> LogEntry list) list"
  requests :: "ExportLogsServiceRequest list"
  acknowledged :: "LogEntry list"

definition initial_state :: logger_state where
  "initial_state =
     \<lparr>logBuffer = [], flushTimer = None, date_now = 0, timeouts = [], next_timeout = 0,
      in_flight = [], requests = [], acknowledged = []\<rparr>"

text \<open>
  How a \<^verbatim>\<open>fetch\<close> ends: a response with \<^verbatim>\<open>response.ok\<close>, a response without it,
  or a rejected promise (which is also where a failing \<^verbatim>\<open>response.text()\<close> lands).
\<close>

datatype fetch_result = Response_ok | Response_not_ok | Rejected

text \<open>
  \<open>flushLogs\<close> up to its \<^verbatim>\<open>await fetch(...)\<close>: this part runs to the end inside the
  caller's turn. \<^verbatim>\<open>splice(0, MAX_BATCH_SIZE)\<close> removes and returns the first
  \<open>MAX_BATCH_SIZE\<close> entries, or all of them when there are fewer.
\<close>

definition flushLogs :: "runtime \<Rightarrow> logger_state \<Rightarrow> logger_state" where
  "flushLogs rt s =
     (if length (logBuffer s) = 0 then s
      else
        let logs = take MAX_BATCH_SIZE (logBuffer s);
            s1 = s\<lparr>logBuffer := drop MAX_BATCH_SIZE (logBuffer s)\<rparr>;
            payload = formatOtlpPayload rt (date_now s1) logs
        in s1\<lparr>in_flight := in_flight s1 @ [(length (requests s1), logs)],
              requests := requests s1 @ [payload]\<rparr>)"

text \<open>
  The rest of \<open>flushLogs\<close>, run when the \<^verbatim>\<open>fetch\<close> of its \<open>logs\<close> has ended.
  \<^verbatim>\<open>unshift(...logs)\<close> puts the batch back in front of the buffer. The messages
  written to the console are not modelled.
\<close>

fun flushLogs_resume :: "fetch_result \<Rightarrow> LogEntry list \<Rightarrow> logger_state \<Rightarrow> logger_state" where
  "flushLogs_resume Response_ok logs s = s"
| "flushLogs_resume Response_not_ok logs s =
     (if length (logBuffer s) < 500 then s\<lparr>logBuffer := logs @ logBuffer s\<rparr> else s)"
| "flushLogs_resume Rejected logs s =
     (if length (logBuffer s) < 500 then s\<lparr>logBuffer := logs @ logBuffer s\<rparr> else s)"

definition setTimeout :: "nat \<Rightarrow> logger_state \<Rightarrow> nat \<times> logger_state" where
  "setTimeout delay s =
     (next_timeout s,
      s\<lparr>timeouts := timeouts s @ [(next_timeout s, date_now s + delay)],
        next_timeout := next_timeout s + 1\<rparr>)"

definition clearTimeout :: "nat \<Rightarrow> logger_state \<Rightarrow> logger_state" where
  "clearTimeout t s = s\<lparr>timeouts := filter (\<lambda>(i, due). i \<noteq> t) (timeouts s)\<rparr>"

definition scheduleFlush :: "logger_state \<Rightarrow> logger_state" where
  "scheduleFlush s =
     (if flushTimer s = None
      then let (t, s1) = setTimeout FLUSH_INTERVAL s in s1\<lparr>flushTimer := Some t\<rparr>
      else s)"

text \<open>The callback that \<open>scheduleFlush\<close> hands to \<^verbatim>\<open>setTimeout\<close>.\<close>

definition flush_callback :: "runtime \<Rightarrow> logger_state \<Rightarrow> logger_state" where
  "flush_callback rt s = flushLogs rt (s\<lparr>flushTimer := None\<rparr>)"

text \<open>The \<open>write\<close> method of the stream that \<open>createOtlpDestination\<close> returns.\<close>

definition destination_write :: "runtime \<Rightarrow> string \<Rightarrow> logger_state \<Rightarrow> logger_state" where
  "destination_write rt data s =
     (case JSON_parse rt data of
        None \<Rightarrow> s
      | Some entry \<Rightarrow>
          let s1 = s\<lparr>logBuffer := logBuffer s @ [entry]\<rparr>
          in if length (logBuffer s1) \<ge> MAX_BATCH_SIZE then flushLogs rt s1
             else scheduleFlush s1)"

definition flushPendingLogs :: "runtime \<Rightarrow> logger_state \<Rightarrow> logger_state" where
  "flushPendingLogs rt s =
     flushLogs rt
       (case flushTimer s of
          None \<Rightarrow> s
        | Some t \<Rightarrow> (clearTimeout t s)\<lparr>flushTimer := None\<rparr>)"

text \<open>
  What can happen to the logger: a line is written to the destination, a timeout that is
  due fires (the runtime drops it from its list and runs the callback), the
  \<^verbatim>\<open>fetch\<close> of a suspended flush ends, the process shuts down and calls
  \<open>flushPendingLogs\<close>, or time passes. An event that cannot happen in a state
  yields \<open>None\<close>.
\<close>

datatype event =
    Write string
  | Timeout nat
  | Settle nat fetch_result
  | FlushPendingLogs
  | Elapse nat

fun step :: "runtime \<Rightarrow> event \<Rightarrow> logger_state \<Rightarrow> logger_state option" where
  "step rt (Write data) s = Some (destination_write rt data s)"
| "step rt (Timeout t) s =
     (case map_of (timeouts s) t of
        None \<Rightarrow> None
      | Some due \<Rightarrow>
          if due \<le> date_now s then Some (flush_callback rt (clearTimeout t s)) else None)"
| "step rt (Settle r res) s =
     (case map_of (in_flight s) r of
        None \<Rightarrow> None
      | Some logs \<Rightarrow>
          Some (flushLogs_resume res logs
                 (s\<lparr>in_flight := filter (\<lambda>(i, b). i \<noteq> r) (in_flight s),
                    acknowledged :=
                      (if res = Response_ok then acknowledged s @ logs else acknowledged s)\<rparr>)))"
| "step rt FlushPendingLogs s = Some (flushPendingLogs rt s)"
| "step rt (Elapse d) s = Some (s\<lparr>date_now := date_now s + d\<rparr>)"

fun run :: "runtime \<Rightarrow> event list \<Rightarrow> logger_state \<Rightarrow> logger_state option" where
  "run rt [] s = Some s"
| "run rt (e # es) s = (case step rt e s of None \<Rightarrow> None | Some s' \<Rightarrow> run rt es s')"

inductive reachable :: "runtime \<Rightarrow> logger_state \<Rightarrow> bool" for rt :: runtime where
  reachable_init: "reachable rt initial_state"
| reachable_step: "reachable rt s \<Longrightarrow> step rt e s = Some s' \<Longrightarrow> reachable rt s'"

text \<open>The entries handed to the buffer by the writes of a run, in the order of the writes.\<close>

fun written :: "runtime \<Rightarrow> event list \<Rightarrow> LogEntry list" where
  "written rt [] = []"
| "written rt (Write data # es) =
     (case JSON_parse rt data of None \<Rightarrow> written rt es | Some entry \<Rightarrow> entry # written rt es)"
| "written rt (e # es) = written rt es"

text \<open>A runtime and two log lines to run the definitions on.\<close>

definition line_a :: LogEntry where
  "line_a = \<lparr>level = 30, time = 1700000000123, msg = Some ''started'',
             rest = [(''pid'', JNum 4711), (''port'', JNum 3005), (''ratio'', JNum (1 / 2)),
                     (''ok'', JBool True), (''tags'', JArr [JStr ''a'', JNull, JNum 2])]\<rparr>"

definition line_b :: LogEntry where
  "line_b = \<lparr>level = 50, time = 1700000000456, msg = None, rest = [(''route'', JStr ''weather'')]\<rparr>"

definition demo_runtime :: runtime where
  "demo_runtime =
     \<lparr>serviceName = ''ducsigr-demo'',
      JSON_parse = (\<lambda>data. if data = ''a'' then Some line_a
                            else if data = ''b'' then Some line_b else None),
      frac_toString = (\<lambda>x. if x = 1 / 2 then ''0.5'' else ''?'')\<rparr>"

text \<open>
  The invariant of the flush timer: the runtime holds exactly the timeout that
  \<open>flushTimer\<close> names, or none when it is null, and that timeout is due at most
  \<open>FLUSH_INTERVAL\<close> from now.
\<close>

definition timer_inv :: "logger_state \<Rightarrow> bool" where
  "timer_inv s =
     (map fst (timeouts s) = (case flushTimer s of None \<Rightarrow> [] | Some t \<Rightarrow> [t]) \<and>
      list_all (\<lambda>(t, due). due \<le> date_now s + FLUSH_INTERVAL) (timeouts s))"

text \<open>Two states to run the definitions on.\<close>

definition one_line_state :: logger_state where
  "one_line_state =
     initial_state\<lparr>logBuffer := [line_a], flushTimer := Some 0, date_now := 5000,
                   timeouts := [(0, 5000)], next_timeout := 1\<rparr>"

definition suspended_state :: logger_state where
  "suspended_state = initial_state\<lparr>logBuffer := [line_b], in_flight := [(0, [line_a])]\<rparr>"

section \<open>The failure simulation route (routes/failures.ts)\<close>










record ScenarioResult =
  success :: bool
  error :: "string option"
  warning :: "string option"
  confidenceScore :: "rat option"
  outputTokens :: "int option"
  data :: "(string \<times> json) list option"

definition failed :: "string \<Rightarrow> ScenarioResult" where
  "failed e =
     \<lparr>success = False, error = Some e, warning = None, confidenceScore = None,
      outputTokens = None, data = None\<rparr>"














section \<open>The mock LLM route (routes/llm-mock.ts)\<close>











section \<open>Properties of the wire shape\<close>













section \<open>Properties of the logger\<close>

subsection \<open>The timer invariant\<close>

lemma flushLogs_timers [simp]:
  "flushTimer (flushLogs rt s) = flushTimer s" "timeouts (flushLogs rt s) = timeouts s"
  "date_now (flushLogs rt s) = date_now s"
  by (simp_all add: flushLogs_def Let_def)

lemma flushLogs_resume_timers [simp]:
  "flushTimer (flushLogs_resume res logs s) = flushTimer s"
  "timeouts (flushLogs_resume res logs s) = timeouts s"
  "date_now (flushLogs_resume res logs s) = date_now s"
  by (cases res; simp)+

lemma timer_inv_flushLogs: "timer_inv (flushLogs rt s) = timer_inv s"
  by (simp add: timer_inv_def)

lemma timer_inv_scheduleFlush: "timer_inv s \<Longrightarrow> timer_inv (scheduleFlush s)"
  by (auto simp: timer_inv_def scheduleFlush_def setTimeout_def split: option.splits)

lemma timer_inv_write: "timer_inv s \<Longrightarrow> timer_inv (destination_write rt line s)"
proof (cases "JSON_parse rt line")
  case None
  assume "timer_inv s"
  then show ?thesis using None by (simp add: destination_write_def)
next
  case (Some entry)
  assume "timer_inv s"
  then have inv1: "timer_inv (s\<lparr>logBuffer := logBuffer s @ [entry]\<rparr>)"
    by (simp add: timer_inv_def)
  show ?thesis
    using Some inv1 timer_inv_scheduleFlush [OF inv1]
    by (simp add: destination_write_def Let_def timer_inv_flushLogs)
qed

lemma timer_inv_timeout:
  assumes "timer_inv s" and "map_of (timeouts s) t = Some due"
  shows "timer_inv (flush_callback rt (clearTimeout t s))"
proof -
  from assms(2) have "t \<in> fst ` set (timeouts s)"
    by (metis domI dom_map_of_conv_image_fst)
  then have "t \<in> set (map fst (timeouts s))" by simp
  with assms(1) have ft: "flushTimer s = Some t"
    by (auto simp: timer_inv_def split: option.splits)
  with assms(1) have "map fst (timeouts s) = [t]" by (simp add: timer_inv_def)
  then obtain d where "timeouts s = [(t, d)]" by (cases "timeouts s") auto
  then show ?thesis
    by (simp add: timer_inv_def flush_callback_def clearTimeout_def)
qed

lemma timer_inv_settle:
  "timer_inv s \<Longrightarrow> timer_inv (flushLogs_resume res logs (s\<lparr>in_flight := fl, acknowledged := ack\<rparr>))"
  by (simp add: timer_inv_def)

lemma timer_inv_flushPendingLogs: "timer_inv s \<Longrightarrow> timer_inv (flushPendingLogs rt s)"
proof (cases "flushTimer s")
  case None
  assume "timer_inv s"
  then show ?thesis using None by (simp add: flushPendingLogs_def timer_inv_flushLogs)
next
  case (Some t)
  assume "timer_inv s"
  then have "map fst (timeouts s) = [t]" using Some by (simp add: timer_inv_def)
  then obtain d where "timeouts s = [(t, d)]" by (cases "timeouts s") auto
  then show ?thesis using Some
    by (simp add: flushPendingLogs_def timer_inv_def clearTimeout_def)
qed

lemma timer_inv_elapse: "timer_inv s \<Longrightarrow> timer_inv (s\<lparr>date_now := date_now s + d\<rparr>)"
  by (auto simp: timer_inv_def list_all_iff)

lemma timer_inv_step: "timer_inv s \<Longrightarrow> step rt e s = Some s' \<Longrightarrow> timer_inv s'"
proof (cases e)
  case (Write line)
  assume "timer_inv s" "step rt e s = Some s'"
  then show ?thesis using Write timer_inv_write by auto
next
  case (Timeout t)
  assume "timer_inv s" "step rt e s = Some s'"
  then show ?thesis using Timeout timer_inv_timeout
    by (auto split: option.splits if_splits)
next
  case (Settle r res)
  assume "timer_inv s" "step rt e s = Some s'"
  then show ?thesis using Settle timer_inv_settle
    by (auto split: option.splits)
next
  case FlushPendingLogs
  assume "timer_inv s" "step rt e s = Some s'"
  then show ?thesis using FlushPendingLogs timer_inv_flushPendingLogs by auto
next
  case (Elapse d)
  assume "timer_inv s" "step rt e s = Some s'"
  then show ?thesis using Elapse timer_inv_elapse by auto
qed

lemma timer_inv_initial: "timer_inv initial_state"
  by (simp add: timer_inv_def initial_state_def)

lemma reachable_timer_inv: "reachable rt s \<Longrightarrow> timer_inv s"
  by (induction rule: reachable.induct) (auto intro: timer_inv_initial timer_inv_step)

lemma JSON_parse_demo [simp]:
  "JSON_parse demo_runtime ''a'' = Some line_a" "JSON_parse demo_runtime ''b'' = Some line_b"
  by (simp_all add: demo_runtime_def)

lemma reachable_run: "reachable rt s \<Longrightarrow> run rt es s = Some s' \<Longrightarrow> reachable rt s'"
  by (induction es arbitrary: s) (auto split: option.splits intro: reachable_step)

lemma run_one_line:
  "run demo_runtime [Write ''a'', Elapse 5000] initial_state = Some one_line_state"
  by (simp add: one_line_state_def initial_state_def destination_write_def scheduleFlush_def
      setTimeout_def MAX_BATCH_SIZE_def FLUSH_INTERVAL_def)

lemma reachable_one_line: "reachable demo_runtime one_line_state"
  using reachable_run [OF reachable_init run_one_line] .

subsection \<open>Flushing\<close>

text \<open>
  C1. When the \<^verbatim>\<open>fetch\<close> of a flush ends without an OK response (a response that is
  not OK, or a rejection), the batch removed for that flush is put back in front of the
  buffer, in its order, if and only if the buffer then holds fewer than 500 entries;
  otherwise the batch is dropped. After an OK response the buffer is left as it is.
\<close>

theorem flush_failure_requeue:
  "map_of (in_flight s) r = Some logs \<Longrightarrow>
   (\<exists>s'. step rt (Settle r res) s = Some s' \<and>
         logBuffer s' =
           (if res \<noteq> Response_ok \<and> length (logBuffer s) < 500 then logs @ logBuffer s
            else logBuffer s))"
  by (cases res) auto

theorem flush_failure_requeue_witness:
  "map_of (in_flight suspended_state) 0 = Some [line_a] \<and>
   (\<exists>s'. step demo_runtime (Settle 0 Rejected) suspended_state = Some s' \<and>
         logBuffer s' = [line_a, line_b])"
  using flush_failure_requeue [of suspended_state 0 "[line_a]" demo_runtime Rejected]
  by (simp add: suspended_state_def initial_state_def)






text \<open>
  C9. When the log buffer is empty, \<open>flushLogs\<close> returns at once: no request is issued
  and the buffer, the flush timer and every other part of the state are as before.
\<close>

theorem flushLogs_empty_noop:
  "logBuffer s = [] \<Longrightarrow> flushLogs rt s = s"
  by (simp add: flushLogs_def)

theorem flushLogs_empty_noop_witness:
  "logBuffer initial_state = [] \<and> flushLogs demo_runtime initial_state = initial_state
   \<and> requests (flushLogs demo_runtime initial_state) = []"
  using flushLogs_empty_noop [of initial_state demo_runtime]
  by (simp add: initial_state_def)

subsection \<open>The flush timer\<close>

text \<open>
  C6. In every reachable state at most one timeout is pending, and it is the one
  \<open>flushTimer\<close> names. \<open>scheduleFlush\<close> registers a timeout only when \<open>flushTimer\<close> is
  null; the callback and \<open>flushPendingLogs\<close> both flush from a state with no timeout
  pending and \<open>flushTimer\<close> null.
\<close>

theorem at_most_one_flush_timer:
  "reachable rt s \<Longrightarrow>
   length (timeouts s) \<le> 1 \<and>
   map fst (timeouts s) = (case flushTimer s of None \<Rightarrow> [] | Some t \<Rightarrow> [t]) \<and>
   (flushTimer s \<noteq> None \<longrightarrow> scheduleFlush s = s) \<and>
   (flushTimer s = None \<longrightarrow>
      timeouts (scheduleFlush s) = [(next_timeout s, date_now s + FLUSH_INTERVAL)] \<and>
      flushTimer (scheduleFlush s) = Some (next_timeout s)) \<and>
   (\<forall>t due. map_of (timeouts s) t = Some due \<longrightarrow>
      flush_callback rt (clearTimeout t s) =
        flushLogs rt (s\<lparr>timeouts := [], flushTimer := None\<rparr>)) \<and>
   flushPendingLogs rt s = flushLogs rt (s\<lparr>timeouts := [], flushTimer := None\<rparr>)"
proof -
  assume "reachable rt s"
  then have inv: "timer_inv s" by (rule reachable_timer_inv)
  show ?thesis
  proof (cases "flushTimer s")
    case None
    then have "timeouts s = []" using inv by (simp add: timer_inv_def)
    moreover from this None have eq: "s\<lparr>timeouts := [], flushTimer := None\<rparr> = s"
      by (cases s) simp
    moreover have "flushPendingLogs rt s = flushLogs rt (s\<lparr>timeouts := [], flushTimer := None\<rparr>)"
      unfolding eq using None by (simp add: flushPendingLogs_def)
    ultimately show ?thesis using None
      by (simp add: scheduleFlush_def setTimeout_def)
  next
    case (Some t)
    then have "map fst (timeouts s) = [t]" using inv by (simp add: timer_inv_def)
    then obtain d where d: "timeouts s = [(t, d)]" by (cases "timeouts s") auto
    then show ?thesis using Some
      by (auto simp: scheduleFlush_def flushPendingLogs_def flush_callback_def clearTimeout_def)
  qed
qed

theorem at_most_one_flush_timer_witness:
  "reachable demo_runtime one_line_state \<and> length (timeouts one_line_state) \<le> 1 \<and>
   flushTimer one_line_state = Some 0 \<and> scheduleFlush one_line_state = one_line_state \<and>
   timeouts (flushPendingLogs demo_runtime one_line_state) = []"
  using at_most_one_flush_timer [OF reachable_one_line] reachable_one_line
  by (simp add: one_line_state_def initial_state_def)

subsection \<open>Order of export\<close>

text \<open>
  C7. The buffer does not keep the order of the writes: two different lines written one
  after the other can be acknowledged by the endpoint in the opposite order, when the
  flush of the first fails while the flush of the second succeeds.
\<close>

theorem export_order_can_differ:
  assumes "JSON_parse rt d1 = Some x" and "JSON_parse rt d2 = Some y" and "x \<noteq> y"
  shows "\<exists>es s. run rt es initial_state = Some s \<and> written rt es = [x, y] \<and>
                acknowledged s = [y, x] \<and> acknowledged s \<noteq> written rt es \<and>
                logBuffer s = [] \<and> in_flight s = []"
proof -
  let ?es = "[Write d1, Elapse FLUSH_INTERVAL, Timeout 0, Write d2, Elapse FLUSH_INTERVAL,
              Timeout 1, Settle 1 Response_ok, Settle 0 Rejected, FlushPendingLogs,
              Settle 2 Response_ok]"
  have "\<exists>s. run rt ?es initial_state = Some s \<and> written rt ?es = [x, y] \<and>
            acknowledged s = [y, x] \<and> acknowledged s \<noteq> written rt ?es \<and>
            logBuffer s = [] \<and> in_flight s = []"
    using assms
    by (simp add: initial_state_def destination_write_def scheduleFlush_def setTimeout_def
        flushLogs_def flush_callback_def clearTimeout_def flushPendingLogs_def
        FLUSH_INTERVAL_def MAX_BATCH_SIZE_def Let_def)
  then show ?thesis by blast
qed

theorem export_order_can_differ_witness:
  "JSON_parse demo_runtime ''a'' = Some line_a \<and> JSON_parse demo_runtime ''b'' = Some line_b \<and>
   line_a \<noteq> line_b \<and>
   (\<exists>es s. run demo_runtime es initial_state = Some s \<and>
           written demo_runtime es = [line_a, line_b] \<and> acknowledged s = [line_b, line_a] \<and>
           acknowledged s \<noteq> written demo_runtime es \<and> logBuffer s = [] \<and> in_flight s = [])"
proof -
  have ne: "line_a \<noteq> line_b" by (simp add: line_a_def line_b_def)
  show ?thesis
    using export_order_can_differ [OF JSON_parse_demo(1) JSON_parse_demo(2) ne] ne
    by simp
qed

section \<open>Properties of the routes\<close>

subsection \<open>Failure simulation\<close>





lemma failed_fields [simp]:
  "error (failed e) = Some e" "warning (failed e) = None" "success (failed e) = False"
  by (simp_all add: failed_def)






subsection \<open>Mock LLM\<close>





end
